theory Spec2Isabelle
  imports Main
begin

section \<open>The crawl pipeline of \<^verbatim>\<open>fiction_scraper/spider.py\<close>\<close>

text \<open>
  The class \<^verbatim>\<open>Spider\<close> drives one crawl: it clears its metadata dict, consumes the
  generator returned by the abstract method \<^verbatim>\<open>parse\<close>, wraps what it yields in a body
  element, runs every filter on that body, builds the head from the metadata dict, and
  serialises the document either into a file or into a string.

  The collaborators of the class are outside the file: the concrete \<^verbatim>\<open>parse\<close>, the
  filter callables (\<^verbatim>\<open>filters.DEFAULT_FILTERS\<close> or an override) and the serialising
  functions of lxml. They are parameters of the model. What the spider does to them, and
  in which order, is recorded in a trace of events carried by the state. Every call that
  can raise returns a sum, with the exception on the left.
\<close>

subsection \<open>Exceptions\<close>

text \<open>
  The spider has no \<^verbatim>\<open>try\<close> anywhere. An exception is one a collaborator raises
  (\<^verbatim>\<open>Exn\<close>), or one of those the calls made by the spider itself raise.
\<close>

datatype exn = Exn string | ValueError | TypeError | AttributeError

subsection \<open>HTML elements as built by \<^verbatim>\<open>lxml.html.builder\<close>\<close>

text \<open>
  An element has a tag, attributes in the order given, and children; a string passed to
  the builder becomes text of the element. Elements are values: a node yielded twice by
  \<^verbatim>\<open>parse\<close> is two children here, whereas lxml would move the one object. A string is
  a Python string of code points below 256.
\<close>

datatype node =
    Element string "(string \<times> string) list" "node list"
  | Text string

text \<open>
  lxml takes a string as text or as an attribute value only when it holds no NUL and no
  control character but tab, line feed and carriage return; otherwise it raises
  \<^verbatim>\<open>ValueError\<close>.
\<close>

definition xml_char :: "char \<Rightarrow> bool" where
  "xml_char c =
     (of_char c = (9::nat) \<or> of_char c = (10::nat) \<or> of_char c = (13::nat) \<or>
      (32::nat) \<le> of_char c)"

definition xml_compatible :: "string \<Rightarrow> bool" where
  "xml_compatible s = list_all xml_char s"

text \<open>
  \<^verbatim>\<open>E.META(**attrs)\<close> and \<^verbatim>\<open>E.TITLE(text)\<close>. The attribute names the source passes
  are the literals \<^verbatim>\<open>charset\<close>, \<^verbatim>\<open>name\<close> and \<^verbatim>\<open>content\<close>; the values are checked.
\<close>

definition E_META :: "(string \<times> string) list \<Rightarrow> exn + node" where
  "E_META attrs =
     (if list_all (\<lambda>(name, v). xml_compatible v) attrs
      then Inr (Element ''meta'' attrs [])
      else Inl ValueError)"

definition E_TITLE :: "string \<Rightarrow> exn + node" where
  "E_TITLE content =
     (if xml_compatible content
      then Inr (Element ''title'' [] [Text content])
      else Inl ValueError)"

text \<open>
  What \<^verbatim>\<open>parse\<close> may yield and \<^verbatim>\<open>E.BODY\<close> is then called with: a node (an element,
  or a string, which the builder takes as text), or an object the builder has no handler
  for (an integer, \<^verbatim>\<open>None\<close>), on which it raises \<^verbatim>\<open>TypeError\<close>. The builder goes
  through its arguments in order, so the first it refuses decides the exception.
\<close>

datatype item = Node node | Unhandled

fun add_items :: "item list \<Rightarrow> exn + node list" where
  "add_items [] = Inr []"
| "add_items (Unhandled # items) = Inl TypeError"
| "add_items (Node (Text s) # items) =
     (if xml_compatible s
      then (case add_items items of Inl e \<Rightarrow> Inl e | Inr ns \<Rightarrow> Inr (Text s # ns))
      else Inl ValueError)"
| "add_items (Node (Element t attrs cs) # items) =
     (case add_items items of Inl e \<Rightarrow> Inl e | Inr ns \<Rightarrow> Inr (Element t attrs cs # ns))"

definition E_BODY :: "item list \<Rightarrow> exn + node" where
  "E_BODY items =
     (case add_items items of Inl e \<Rightarrow> Inl e | Inr ns \<Rightarrow> Inr (Element ''body'' [] ns))"

text \<open>
  \<^verbatim>\<open>E.HEAD\<close> and \<^verbatim>\<open>E.HTML\<close> are called with elements the builder has made, which it
  appends.
\<close>

definition E_HEAD :: "node list \<Rightarrow> node" where
  "E_HEAD children = Element ''head'' [] children"

definition E_HTML :: "node \<Rightarrow> node \<Rightarrow> node" where
  "E_HTML head body = Element ''html'' [] [head, body]"

fun tag_of :: "node \<Rightarrow> string" where
  "tag_of (Element t _ _) = t"
| "tag_of (Text _) = []"

fun children_of :: "node \<Rightarrow> node list" where
  "children_of (Element _ _ cs) = cs"
| "children_of (Text _) = []"

text \<open>The head of a document \<^verbatim>\<open>E.HTML(head, body)\<close> is its first child.\<close>

fun head_of :: "node \<Rightarrow> node" where
  "head_of (Element _ _ (h # _)) = h"
| "head_of n = n"

fun body_of :: "node \<Rightarrow> node" where
  "body_of (Element _ _ (_ # b # _)) = b"
| "body_of n = n"

subsection \<open>The metadata dict, the output file\<close>

text \<open>
  \<^verbatim>\<open>self.metadata\<close> is a Python dict from strings to strings: keys are unique and
  iteration follows insertion order. It is an association list; \<^verbatim>\<open>d[k] = v\<close> replaces
  the value of an existing key where it stands and appends a new key at the end.
\<close>

type_synonym metadata_dict = "(string \<times> string) list"

fun dict_setitem :: "metadata_dict \<Rightarrow> string \<Rightarrow> string \<Rightarrow> metadata_dict" where
  "dict_setitem [] k v = [(k, v)]"
| "dict_setitem ((k', v') # d) k v =
     (if k' = k then (k, v) # d else (k', v') # dict_setitem d k v)"

text \<open>
  The argument \<^verbatim>\<open>output_file\<close> of \<^verbatim>\<open>crawl\<close>: omitted (\<^verbatim>\<open>None\<close>), a filename, or a
  file-like object, given by a handle and by the truth value Python finds for it (true,
  unless its class has a \<^verbatim>\<open>__bool__\<close> that returns false or a \<^verbatim>\<open>__len__\<close> that
  returns 0). The test \<^verbatim>\<open>if output_file:\<close> is that truth value: \<^verbatim>\<open>None\<close> and the empty
  string are false.
\<close>

datatype output_file = NoFile | Filename string | FileObject nat bool

fun truthy :: "output_file \<Rightarrow> bool" where
  "truthy NoFile = False"
| "truthy (Filename s) = (s \<noteq> [])"
| "truthy (FileObject handle truth) = truth"

subsection \<open>The collaborators\<close>

text \<open>
  \<^verbatim>\<open>parse(url)\<close> is typically a generator: between two yields it may write to
  \<^verbatim>\<open>self.metadata\<close>, and it may raise. One run of it is the list of what it does, in
  order.
\<close>

datatype gen_action =
    is_Yield: Yield item
  | is_SetItem: SetItem string string
  | is_Raise: Raise exn

text \<open>
  A filter is a callable taking the body element, which it changes in place; the value
  it returns is dropped. Here it maps the body to the changed body, or raises.

  \<^verbatim>\<open>_filter_name\<close> reads attributes of the callable: \<^verbatim>\<open>own_qualname\<close> and
  \<^verbatim>\<open>own_module\<close> are its \<^verbatim>\<open>__qualname__\<close> and \<^verbatim>\<open>__module__\<close>, each absent, present
  but no string (\<^verbatim>\<open>None\<close>), or a string; \<^verbatim>\<open>type_name\<close> holds the two of its type,
  which are strings.
\<close>

datatype pyattr = Absent | NotStr | IsStr string

record filter_fn =
  own_qualname :: pyattr
  own_module :: pyattr
  type_name :: "string \<times> string"
  run :: "node \<Rightarrow> exn + node"

text \<open>
  \<^verbatim>\<open>_filter_name\<close>: without a \<^verbatim>\<open>__qualname__\<close> the type is named instead. Otherwise
  \<^verbatim>\<open>type_.__module__ + '.' + type_.__qualname__\<close> raises \<^verbatim>\<open>AttributeError\<close> when there
  is no \<^verbatim>\<open>__module__\<close>, and \<^verbatim>\<open>TypeError\<close> when one of the two is no string.
\<close>

definition filter_name :: "filter_fn \<Rightarrow> exn + string" where
  "filter_name f =
     (case own_qualname f of
        Absent \<Rightarrow> Inr (fst (type_name f) @ ''.'' @ snd (type_name f))
      | NotStr \<Rightarrow>
          (case own_module f of
             Absent \<Rightarrow> Inl AttributeError
           | NotStr \<Rightarrow> Inl TypeError
           | IsStr module \<Rightarrow> Inl TypeError)
      | IsStr qualname \<Rightarrow>
          (case own_module f of
             Absent \<Rightarrow> Inl AttributeError
           | NotStr \<Rightarrow> Inl TypeError
           | IsStr module \<Rightarrow> Inr (module @ ''.'' @ qualname)))"

text \<open>
  A spider: the abstract method \<^verbatim>\<open>parse\<close> and the class attribute \<^verbatim>\<open>filters\<close>.
\<close>

record spider =
  parse :: "string \<Rightarrow> gen_action list"
  filters :: "filter_fn list"

text \<open>
  The two serialising functions of lxml that \<^verbatim>\<open>crawl\<close> calls, with the arguments it
  passes. \<^verbatim>\<open>tree_write doc file encoding method pretty_print doctype\<close> raises, or
  gives the bytes put into the file and the value the call returns.
  \<^verbatim>\<open>tostring doc encoding pretty_print doctype\<close> raises or returns a string.
\<close>

record 'r lxml =
  tree_write :: "node \<Rightarrow> output_file \<Rightarrow> string \<Rightarrow> string \<Rightarrow> bool \<Rightarrow> string \<Rightarrow> exn + (string \<times> 'r)"
  tostring :: "node \<Rightarrow> string \<Rightarrow> bool \<Rightarrow> string \<Rightarrow> exn + string"

subsection \<open>State and events\<close>

datatype level = DEBUG | INFO | WARNING | CRITICAL

text \<open>
  What the spider does to the world outside it, in program order: a record handed to
  the logger, a step of the \<^verbatim>\<open>parse\<close> generator, a call of a filter (its name and the
  body passed to it), bytes written to the output file.
\<close>

datatype event =
    is_Log: Log level string
  | is_Parsed: Parsed gen_action
  | is_Call: Call string node
  | is_Wrote: Wrote output_file string

record state =
  metadata :: metadata_dict
  trace :: "event list"

definition emit :: "event \<Rightarrow> state \<Rightarrow> state" where
  "emit e st = st\<lparr>trace := trace st @ [e]\<rparr>"

definition debug :: "string \<Rightarrow> state \<Rightarrow> state" where
  "debug msg st = emit (Log DEBUG msg) st"

definition info :: "string \<Rightarrow> state \<Rightarrow> state" where
  "info msg st = emit (Log INFO msg) st"

subsection \<open>The methods of \<^verbatim>\<open>Spider\<close>\<close>

text \<open>
  \<^verbatim>\<open>_generate_meadata_elements\<close> (the name is the source's): the charset element, then
  one element for each item of the dict. It is a generator consumed by \<^verbatim>\<open>E.HEAD(*...)\<close>:
  when the builder raises for an item, the call that consumes it raises and no list of
  elements comes out.
\<close>

fun metadata_items :: "metadata_dict \<Rightarrow> exn + node list" where
  "metadata_items [] = Inr []"
| "metadata_items ((name, content) # d) =
     (case (if name = ''title'' then E_TITLE content
            else E_META [(''name'', name), (''content'', content)]) of
        Inl e \<Rightarrow> Inl e
      | Inr el \<Rightarrow>
          (case metadata_items d of Inl e \<Rightarrow> Inl e | Inr els \<Rightarrow> Inr (el # els)))"

definition generate_meadata_elements :: "state \<Rightarrow> exn + node list" where
  "generate_meadata_elements st =
     (case E_META [(''charset'', ''UTF-8'')] of
        Inl e \<Rightarrow> Inl e
      | Inr charset \<Rightarrow>
          (case metadata_items (metadata st) of
             Inl e \<Rightarrow> Inl e
           | Inr els \<Rightarrow> Inr (charset # els)))"

text \<open>
  \<^verbatim>\<open>*self.parse(url)\<close>: the generator is run to its end, collecting what it yields,
  before \<^verbatim>\<open>E.BODY\<close> is called. An exception ends the run; the writes made so far stay
  in the dict.
\<close>

fun run_parse :: "gen_action list \<Rightarrow> state \<Rightarrow> (exn + item list) \<times> state" where
  "run_parse [] st = (Inr [], st)"
| "run_parse (Yield x # acts) st =
     (case run_parse acts (emit (Parsed (Yield x)) st) of
        (Inl e, st') \<Rightarrow> (Inl e, st')
      | (Inr xs, st') \<Rightarrow> (Inr (x # xs), st'))"
| "run_parse (SetItem k v # acts) st =
     run_parse acts
       (emit (Parsed (SetItem k v)) (st\<lparr>metadata := dict_setitem (metadata st) k v\<rparr>))"
| "run_parse (Raise e # acts) st = (Inl e, emit (Parsed (Raise e)) st)"

text \<open>
  The loop \<^verbatim>\<open>for f in self.filters\<close>: work out the name, log it, call the filter on the
  body.
\<close>

fun apply_filters :: "filter_fn list \<Rightarrow> node \<Rightarrow> state \<Rightarrow> (exn + node) \<times> state" where
  "apply_filters [] body st = (Inr body, st)"
| "apply_filters (f # fs) body st =
     (case filter_name f of
        Inl e \<Rightarrow> (Inl e, st)
      | Inr name \<Rightarrow>
          (let st1 = debug (''running filter '' @ name) st;
               st2 = emit (Call name body) st1
           in case run f body of
                Inl e \<Rightarrow> (Inl e, st2)
              | Inr body' \<Rightarrow> apply_filters fs body' st2))"

text \<open>
  \<^verbatim>\<open>crawl\<close> up to \<^verbatim>\<open>doc = E.HTML(head, body)\<close>: the assembled document, or the
  exception of the step that raised.
\<close>

definition crawl_document :: "spider \<Rightarrow> string \<Rightarrow> state \<Rightarrow> (exn + node) \<times> state" where
  "crawl_document sp url st =
     (let st1 = st\<lparr>metadata := []\<rparr>;
          st2 = info ''beginning parse...'' st1
      in case run_parse (parse sp url) st2 of
           (Inl e, st3) \<Rightarrow> (Inl e, st3)
         | (Inr items, st3) \<Rightarrow>
             (case E_BODY items of
                Inl e \<Rightarrow> (Inl e, st3)
              | Inr body \<Rightarrow>
                  (let st4 = info ''applying filters...'' st3
                   in case apply_filters (filters sp) body st4 of
                        (Inl e, st5) \<Rightarrow> (Inl e, st5)
                      | (Inr body', st5) \<Rightarrow>
                          (case generate_meadata_elements st5 of
                             Inl e \<Rightarrow> (Inl e, st5)
                           | Inr els \<Rightarrow> (Inr (E_HTML (E_HEAD els) body'), st5)))))"

text \<open>
  The end of \<^verbatim>\<open>crawl\<close>, from \<^verbatim>\<open>if output_file:\<close> on. It returns the string, or the
  value returned by the tree's \<^verbatim>\<open>write\<close>.
\<close>

datatype 'r returned = Str string | WriteResult 'r

definition serialize_document ::
  "'r lxml \<Rightarrow> node \<Rightarrow> output_file \<Rightarrow> state \<Rightarrow> (exn + 'r returned) \<times> state" where
  "serialize_document lib doc out st =
     (if truthy out then
        (let st1 = info ''writing document...'' st
         in case tree_write lib doc out ''UTF-8'' ''html'' True ''<!doctype html>'' of
              Inl e \<Rightarrow> (Inl e, st1)
            | Inr (bytes, r) \<Rightarrow> (Inr (WriteResult r), emit (Wrote out bytes) st1))
      else
        (let st1 = info ''tostring on document...'' st
         in case tostring lib doc ''unicode'' True ''<!doctype html>'' of
              Inl e \<Rightarrow> (Inl e, st1)
            | Inr s \<Rightarrow> (Inr (Str s), st1)))"

definition crawl ::
  "'r lxml \<Rightarrow> spider \<Rightarrow> string \<Rightarrow> output_file \<Rightarrow> state \<Rightarrow> (exn + 'r returned) \<times> state" where
  "crawl lib sp url out st =
     (case crawl_document sp url st of
        (Inl e, st1) \<Rightarrow> (Inl e, st1)
      | (Inr doc, st1) \<Rightarrow> serialize_document lib doc out st1)"

subsection \<open>Notions the properties are stated with\<close>

text \<open>What a run of \<^verbatim>\<open>parse\<close> yields, and the dict its writes leave.\<close>

fun yielded :: "gen_action list \<Rightarrow> item list" where
  "yielded [] = []"
| "yielded (Yield x # acts) = x # yielded acts"
| "yielded (_ # acts) = yielded acts"

fun written :: "gen_action list \<Rightarrow> metadata_dict \<Rightarrow> metadata_dict" where
  "written [] d = d"
| "written (SetItem k v # acts) d = written acts (dict_setitem d k v)"
| "written (_ # acts) d = written acts d"

text \<open>
  The filters composed as functions: the body after each has changed it in turn, or the
  exception of the first that raises.
\<close>

fun chain :: "filter_fn list \<Rightarrow> node \<Rightarrow> exn + node" where
  "chain [] body = Inr body"
| "chain (f # fs) body =
     (case run f body of Inl e \<Rightarrow> Inl e | Inr body' \<Rightarrow> chain fs body')"

text \<open>A filter whose name \<^verbatim>\<open>_filter_name\<close> can work out.\<close>

definition named :: "filter_fn \<Rightarrow> bool" where
  "named f = (case filter_name f of Inl e \<Rightarrow> False | Inr name \<Rightarrow> True)"

text \<open>
  What the filter loop gives: as \<^verbatim>\<open>chain\<close>, but each filter is named before it is
  called, and the naming may raise. And the events of the loop, up to the first step
  that raises.
\<close>

fun filter_loop :: "filter_fn list \<Rightarrow> node \<Rightarrow> exn + node" where
  "filter_loop [] body = Inr body"
| "filter_loop (f # fs) body =
     (case filter_name f of
        Inl e \<Rightarrow> Inl e
      | Inr name \<Rightarrow>
          (case run f body of Inl e \<Rightarrow> Inl e | Inr body' \<Rightarrow> filter_loop fs body'))"

fun filter_events :: "filter_fn list \<Rightarrow> node \<Rightarrow> event list" where
  "filter_events [] body = []"
| "filter_events (f # fs) body =
     (case filter_name f of
        Inl e \<Rightarrow> []
      | Inr name \<Rightarrow>
          Log DEBUG (''running filter '' @ name) # Call name body #
          (case run f body of Inl e \<Rightarrow> [] | Inr body' \<Rightarrow> filter_events fs body'))"

text \<open>The filter calls in a list of events: which filter, on which body.\<close>

fun calls_of :: "event list \<Rightarrow> (string \<times> node) list" where
  "calls_of [] = []"
| "calls_of (Call name body # evs) = (name, body) # calls_of evs"
| "calls_of (_ # evs) = calls_of evs"

subsection \<open>Example collaborators\<close>

text \<open>
  A stand-in for lxml's serialiser, used only to run \<^verbatim>\<open>crawl\<close> on concrete spiders:
  it writes tags without attributes or indentation after the doctype, and its write
  returns \<^verbatim>\<open>None\<close>.
\<close>

fun ex_render :: "node \<Rightarrow> string" where
  "ex_render (Text s) = s"
| "ex_render (Element t attrs cs) =
     ''<'' @ t @ ''>'' @ concat (map ex_render cs) @ ''</'' @ t @ ''>''"

definition ex_lib :: "unit lxml" where
  "ex_lib =
     \<lparr>tree_write = (\<lambda>doc file encoding method pretty_print doctype.
        Inr (doctype @ ex_render doc, ())),
      tostring = (\<lambda>doc encoding pretty_print doctype. Inr (doctype @ ex_render doc))\<rparr>"

text \<open>A library whose serialiser raises on both paths.\<close>

definition ex_lib_raises :: "unit lxml" where
  "ex_lib_raises =
     \<lparr>tree_write = (\<lambda>doc file encoding method pretty_print doctype. Inl (Exn ''disk full'')),
      tostring = (\<lambda>doc encoding pretty_print doctype. Inl (Exn ''bad text''))\<rparr>"

text \<open>
  A filter, a plain function of the module \<^verbatim>\<open>filters\<close>, that sets an attribute of its
  own name on the body.
\<close>

definition ex_mark :: "string \<Rightarrow> filter_fn" where
  "ex_mark name =
     \<lparr>own_qualname = IsStr name,
      own_module = IsStr ''filters'',
      type_name = (''builtins'', ''function''),
      run = (\<lambda>body. case body of
               Element t attrs cs \<Rightarrow> Inr (Element t (dict_setitem attrs name ''seen'') cs)
             | Text s \<Rightarrow> Inr (Text s))\<rparr>"

text \<open>A filter, an instance of a class \<^verbatim>\<open>Broken\<close>, that raises.\<close>

definition ex_broken :: filter_fn where
  "ex_broken =
     \<lparr>own_qualname = Absent,
      own_module = IsStr ''filters'',
      type_name = (''filters'', ''Broken''),
      run = (\<lambda>body. Inl (Exn ''boom''))\<rparr>"

text \<open>
  A callable with a \<^verbatim>\<open>__qualname__\<close> and no \<^verbatim>\<open>__module__\<close>, as a method descriptor
  has.
\<close>

definition ex_descriptor :: filter_fn where
  "ex_descriptor =
     \<lparr>own_qualname = IsStr ''str.upper'',
      own_module = Absent,
      type_name = (''builtins'', ''method_descriptor''),
      run = (\<lambda>body. Inr body)\<rparr>"

text \<open>
  A spider whose \<^verbatim>\<open>parse\<close> writes an author and a title for the URL \<^verbatim>\<open>first\<close> and
  writes nothing for any other URL.
\<close>

definition ex_spider :: spider where
  "ex_spider =
     \<lparr>parse = (\<lambda>url.
        if url = ''first''
        then [SetItem ''author'' ''A'', Yield (Node (Element ''p'' [] [Text ''one''])),
              SetItem ''title'' ''T'']
        else [Yield (Node (Element ''p'' [] [Text ''two'']))]),
      filters = [ex_mark ''f1'', ex_mark ''f2'']\<rparr>"

definition ex_spider_filter_raises :: spider where
  "ex_spider_filter_raises =
     \<lparr>parse = (\<lambda>url. []), filters = [ex_mark ''f1'', ex_broken, ex_mark ''f3'']\<rparr>"

definition ex_spider_parse_raises :: spider where
  "ex_spider_parse_raises =
     \<lparr>parse = (\<lambda>url. [Raise (Exn ''boom'')]), filters = []\<rparr>"

text \<open>A spider whose \<^verbatim>\<open>parse\<close> writes the title twice.\<close>

definition ex_spider_retitled :: spider where
  "ex_spider_retitled =
     \<lparr>parse = (\<lambda>url. [SetItem ''title'' ''Draft'', SetItem ''author'' ''A'',
                      SetItem ''title'' ''Final'']),
      filters = []\<rparr>"

text \<open>
  A spider whose \<^verbatim>\<open>parse\<close> writes an author with the control character U+0001 in it.
\<close>

definition ex_spider_control_char :: spider where
  "ex_spider_control_char =
     \<lparr>parse = (\<lambda>url. [SetItem ''title'' ''T'', SetItem ''author'' [CHR ''A'', CHR 0x01]]),
      filters = []\<rparr>"

definition st0 :: state where
  "st0 = \<lparr>metadata = [], trace = []\<rparr>"


text \<open>
  The document and the state of the crawl of \<^verbatim>\<open>first\<close> by \<^verbatim>\<open>ex_spider\<close>, started in
  \<^verbatim>\<open>st0\<close>.
\<close>

definition ex_first_document :: node where
  "ex_first_document =
     E_HTML
       (E_HEAD [Element ''meta'' [(''charset'', ''UTF-8'')] [],
                Element ''meta'' [(''name'', ''author''), (''content'', ''A'')] [],
                Element ''title'' [] [Text ''T'']])
       (Element ''body'' [(''f1'', ''seen''), (''f2'', ''seen'')]
          [Element ''p'' [] [Text ''one'']])"

definition ex_first_state :: state where
  "ex_first_state =
     \<lparr>metadata = [(''author'', ''A''), (''title'', ''T'')],
      trace =
        [Log INFO ''beginning parse...'',
         Parsed (SetItem ''author'' ''A''),
         Parsed (Yield (Node (Element ''p'' [] [Text ''one'']))),
         Parsed (SetItem ''title'' ''T''),
         Log INFO ''applying filters...'',
         Log DEBUG ''running filter filters.f1'',
         Call ''filters.f1'' (Element ''body'' [] [Element ''p'' [] [Text ''one'']]),
         Log DEBUG ''running filter filters.f2'',
         Call ''filters.f2''
           (Element ''body'' [(''f1'', ''seen'')] [Element ''p'' [] [Text ''one'']])]\<rparr>"

text \<open>The state a spider is left in by a crawl that wrote metadata.\<close>

definition st_used :: state where
  "st_used = snd (crawl ex_lib ex_spider ''first'' NoFile st0)"

section \<open>Properties\<close>

subsection \<open>What the steps of a crawl compute\<close>

lemma charset_element: "E_META [(''charset'', ''UTF-8'')] = Inr (Element ''meta'' [(''charset'', ''UTF-8'')] [])"
  by (simp add: E_META_def xml_compatible_def xml_char_def)


lemma filter_name_descriptor: "filter_name ex_descriptor = Inl AttributeError"
  by (simp add: filter_name_def ex_descriptor_def)

lemma run_parse_no_raise:
  "\<forall>a \<in> set acts. \<not> is_Raise a \<Longrightarrow>
   run_parse acts st =
     (Inr (yielded acts),
      st\<lparr>metadata := written acts (metadata st), trace := trace st @ map Parsed acts\<rparr>)"
proof (induction acts arbitrary: st)
  case Nil
  show ?case by simp
next
  case (Cons a acts)
  then show ?case by (cases a) (simp_all add: emit_def)
qed

lemma run_parse_raise:
  "\<forall>a \<in> set pre. \<not> is_Raise a \<Longrightarrow>
   run_parse (pre @ Raise e # post) st =
     (Inl e,
      st\<lparr>metadata := written pre (metadata st),
         trace := trace st @ map Parsed (pre @ [Raise e])\<rparr>)"
proof (induction pre arbitrary: st)
  case Nil
  show ?case by (simp add: emit_def)
next
  case (Cons a pre)
  then show ?case by (cases a) (simp_all add: emit_def)
qed

lemma raise_split:
  "\<exists>a \<in> set acts. is_Raise a \<Longrightarrow>
   \<exists>pre e post. acts = pre @ Raise e # post \<and> (\<forall>a \<in> set pre. \<not> is_Raise a)"
proof (induction acts)
  case Nil
  then show ?case by simp
next
  case (Cons a acts)
  show ?case
  proof (cases a)
    case (Raise e)
    then have "a # acts = [] @ Raise e # acts \<and> (\<forall>a \<in> set []. \<not> is_Raise a)" by simp
    then show ?thesis by blast
  next
    case (Yield n)
    with Cons obtain pre e post where "acts = pre @ Raise e # post" "\<forall>a \<in> set pre. \<not> is_Raise a"
      by auto
    with Yield have "a # acts = (a # pre) @ Raise e # post \<and> (\<forall>b \<in> set (a # pre). \<not> is_Raise b)"
      by simp
    then show ?thesis by blast
  next
    case (SetItem k v)
    with Cons obtain pre e post where "acts = pre @ Raise e # post" "\<forall>a \<in> set pre. \<not> is_Raise a"
      by auto
    with SetItem have "a # acts = (a # pre) @ Raise e # post \<and> (\<forall>b \<in> set (a # pre). \<not> is_Raise b)"
      by simp
    then show ?thesis by blast
  qed
qed

lemma apply_filters_eq:
  "apply_filters fs body st =
     (filter_loop fs body, st\<lparr>trace := trace st @ filter_events fs body\<rparr>)"
proof (induction fs arbitrary: body st)
  case Nil
  show ?case by simp
next
  case (Cons f fs)
  show ?case
  proof (cases "filter_name f")
    case (Inl e)
    then show ?thesis by simp
  next
    case name: (Inr name)
    show ?thesis
    proof (cases "run f body")
      case (Inl e)
      with name show ?thesis by (simp add: Let_def emit_def debug_def)
    next
      case (Inr b)
      with name show ?thesis by (simp add: Let_def emit_def debug_def Cons)
    qed
  qed
qed

lemma filter_loop_Inr:
  "filter_loop fs body = Inr b \<Longrightarrow> chain fs body = Inr b \<and> list_all named fs"
  by (induction fs arbitrary: body) (auto simp: named_def split: sum.splits)

lemma filter_loop_named:
  "list_all named fs \<Longrightarrow> filter_loop fs body = chain fs body"
  by (induction fs arbitrary: body) (auto simp: named_def split: sum.splits)

lemma chain_append:
  "chain (fs @ gs) body = (case chain fs body of Inl e \<Rightarrow> Inl e | Inr b \<Rightarrow> chain gs b)"
  by (induction fs arbitrary: body) (auto split: sum.splits)

lemma filter_loop_append:
  "filter_loop (fs @ gs) body =
     (case filter_loop fs body of Inl e \<Rightarrow> Inl e | Inr b \<Rightarrow> filter_loop gs b)"
  by (induction fs arbitrary: body) (auto split: sum.splits)

lemma filter_events_append:
  "filter_events (fs @ gs) body =
     filter_events fs body @
     (case filter_loop fs body of Inl e \<Rightarrow> [] | Inr b \<Rightarrow> filter_events gs b)"
  by (induction fs arbitrary: body) (auto split: sum.splits)

lemma calls_of_append: "calls_of (xs @ ys) = calls_of xs @ calls_of ys"
  by (induction xs rule: calls_of.induct) auto

lemma calls_of_Parsed: "calls_of (map Parsed acts) = []"
  by (induction acts) auto

lemma calls_of_filter_events:
  "filter_loop fs body = Inr b \<Longrightarrow>
   length (calls_of (filter_events fs body)) = length fs \<and>
   (\<forall>i < length fs. \<exists>bi. chain (take i fs) body = Inr bi \<and>
      filter_name (fs ! i) = Inr (fst (calls_of (filter_events fs body) ! i)) \<and>
      snd (calls_of (filter_events fs body) ! i) = bi)"
proof (induction fs arbitrary: body)
  case Nil
  then show ?case by simp
next
  case (Cons f fs)
  from Cons.prems obtain name b1 where name: "filter_name f = Inr name"
    and b1: "run f body = Inr b1" and rest: "filter_loop fs b1 = Inr b"
    by (auto split: sum.splits)
  note IH = Cons.IH [OF rest]
  have "\<exists>bi. chain (take i (f # fs)) body = Inr bi \<and>
          filter_name ((f # fs) ! i) = Inr (fst (calls_of (filter_events (f # fs) body) ! i)) \<and>
          snd (calls_of (filter_events (f # fs) body) ! i) = bi"
    if "i < length (f # fs)" for i
  proof (cases i)
    case 0
    then show ?thesis by (simp add: b1 name)
  next
    case (Suc j)
    with that have "j < length fs" by simp
    with IH obtain bj where "chain (take j fs) b1 = Inr bj"
      "filter_name (fs ! j) = Inr (fst (calls_of (filter_events fs b1) ! j))"
      "snd (calls_of (filter_events fs b1) ! j) = bj" by blast
    with Suc show ?thesis by (simp add: b1 name)
  qed
  with IH show ?case by (simp add: b1 name)
qed

lemma generate_meadata_elements_eq:
  "generate_meadata_elements st =
     (case metadata_items (metadata st) of
        Inl e \<Rightarrow> Inl e
      | Inr els \<Rightarrow> Inr (Element ''meta'' [(''charset'', ''UTF-8'')] [] # els))"
  by (simp add: generate_meadata_elements_def charset_element)

lemma crawl_document_eq:
  assumes "\<forall>a \<in> set (parse sp url). \<not> is_Raise a"
  shows "crawl_document sp url st =
     (case E_BODY (yielded (parse sp url)) of
        Inl e \<Rightarrow>
          (Inl e,
           \<lparr>metadata = written (parse sp url) [],
            trace = trace st @ Log INFO ''beginning parse...'' # map Parsed (parse sp url)\<rparr>)
      | Inr body0 \<Rightarrow>
          (case filter_loop (filters sp) body0 of
             Inl e \<Rightarrow> Inl e
           | Inr body \<Rightarrow>
               (case metadata_items (written (parse sp url) []) of
                  Inl e \<Rightarrow> Inl e
                | Inr els \<Rightarrow>
                    Inr (E_HTML (E_HEAD (Element ''meta'' [(''charset'', ''UTF-8'')] [] # els))
                           body)),
           \<lparr>metadata = written (parse sp url) [],
            trace = trace st @ Log INFO ''beginning parse...'' # map Parsed (parse sp url) @
                    Log INFO ''applying filters...'' # filter_events (filters sp) body0\<rparr>))"
  by (simp add: crawl_document_def Let_def run_parse_no_raise [OF assms] apply_filters_eq
      info_def emit_def generate_meadata_elements_eq split: sum.splits)

lemma crawl_document_raise:
  assumes "parse sp url = pre @ Raise e # post" "\<forall>a \<in> set pre. \<not> is_Raise a"
  shows "crawl_document sp url st =
     (Inl e, \<lparr>metadata = written pre [],
       trace = trace st @ Log INFO ''beginning parse...'' # map Parsed (pre @ [Raise e])\<rparr>)"
  by (simp add: crawl_document_def Let_def assms(1) run_parse_raise [OF assms(2)]
      info_def emit_def)

lemma crawl_document_Inr:
  assumes "crawl_document sp url st = (Inr doc, st')"
  shows "(\<forall>a \<in> set (parse sp url). \<not> is_Raise a) \<and>
         (\<exists>body0 body els.
            E_BODY (yielded (parse sp url)) = Inr body0 \<and>
            filter_loop (filters sp) body0 = Inr body \<and>
            metadata_items (written (parse sp url) []) = Inr els \<and>
            doc = E_HTML (E_HEAD (Element ''meta'' [(''charset'', ''UTF-8'')] [] # els)) body \<and>
            st' = \<lparr>metadata = written (parse sp url) [],
                   trace = trace st @ Log INFO ''beginning parse...'' #
                     map Parsed (parse sp url) @
                     Log INFO ''applying filters...'' # filter_events (filters sp) body0\<rparr>)"
proof (cases "\<exists>a \<in> set (parse sp url). is_Raise a")
  case True
  then obtain pre e post where "parse sp url = pre @ Raise e # post" "\<forall>a \<in> set pre. \<not> is_Raise a"
    using raise_split by blast
  then have "crawl_document sp url st =
     (Inl e, \<lparr>metadata = written pre [],
       trace = trace st @ Log INFO ''beginning parse...'' # map Parsed (pre @ [Raise e])\<rparr>)"
    by (rule crawl_document_raise)
  with assms show ?thesis by simp
next
  case False
  then have nr: "\<forall>a \<in> set (parse sp url). \<not> is_Raise a" by simp
  from assms show ?thesis
    unfolding crawl_document_eq [OF nr] using nr by (auto split: sum.splits)
qed

lemma written_no_writes: "\<forall>a \<in> set acts. \<not> is_SetItem a \<Longrightarrow> written acts d = d"
proof (induction acts arbitrary: d)
  case Nil
  show ?case by simp
next
  case (Cons a acts)
  then show ?case by (cases a) simp_all
qed

lemma crawl_document_reset:
  "crawl_document sp url (st\<lparr>metadata := m\<rparr>) = crawl_document sp url st"
  by (simp add: crawl_document_def)

subsection \<open>The metadata projection\<close>






lemma ex_first_run:
  "crawl_document ex_spider ''first'' st0 = (Inr ex_first_document, ex_first_state)"
  by (simp add: crawl_document_def ex_spider_def ex_mark_def st0_def Let_def info_def debug_def
      emit_def E_BODY_def generate_meadata_elements_eq ex_first_document_def ex_first_state_def
      filter_name_def E_META_def E_TITLE_def xml_compatible_def xml_char_def)

lemma st_used_metadata: "metadata st_used = [(''author'', ''A''), (''title'', ''T'')]"
  by (simp add: st_used_def crawl_def ex_first_run serialize_document_def ex_lib_def
      Let_def info_def emit_def ex_first_state_def)


subsection \<open>Metadata does not leak from one crawl into the next\<close>

text \<open>
  Claim C1. \<^verbatim>\<open>crawl\<close> clears the metadata dict before it calls \<^verbatim>\<open>parse\<close>: whatever
  state an earlier crawl left the spider in, the crawl runs as it does from that state
  with an empty dict. So when the \<^verbatim>\<open>parse\<close> of this crawl writes no metadata, the head
  of the document it assembles holds the charset element and nothing else, and the dict
  is empty afterwards.
\<close>

theorem crawl_metadata_isolation:
  "crawl lib sp url out st = crawl lib sp url out (st\<lparr>metadata := []\<rparr>) \<and>
   ((\<forall>a \<in> set (parse sp url). \<not> is_SetItem a) \<longrightarrow>
      (\<forall>doc st'. crawl_document sp url st = (Inr doc, st') \<longrightarrow>
         head_of doc = E_HEAD [Element ''meta'' [(''charset'', ''UTF-8'')] []] \<and>
         metadata st' = []))"
proof -
  have reset: "crawl lib sp url out st = crawl lib sp url out (st\<lparr>metadata := []\<rparr>)"
    by (simp add: crawl_def crawl_document_reset)
  have "head_of doc = E_HEAD [Element ''meta'' [(''charset'', ''UTF-8'')] []] \<and> metadata st' = []"
    if nw: "\<forall>a \<in> set (parse sp url). \<not> is_SetItem a"
      and run: "crawl_document sp url st = (Inr doc, st')" for doc st'
    using crawl_document_Inr [OF run] written_no_writes [OF nw, of "[]"]
    by (auto simp: E_HTML_def)
  with reset show ?thesis by blast
qed

lemma ex_second_document:
  "fst (crawl_document ex_spider ''second'' st) =
     Inr (E_HTML (E_HEAD [Element ''meta'' [(''charset'', ''UTF-8'')] []])
            (Element ''body'' [(''f1'', ''seen''), (''f2'', ''seen'')]
               [Element ''p'' [] [Text ''two'']]))"
  by (simp add: crawl_document_def ex_spider_def ex_mark_def Let_def info_def debug_def
      emit_def E_BODY_def generate_meadata_elements_eq filter_name_def)

theorem crawl_metadata_isolation_witness:
  "metadata st_used = [(''author'', ''A''), (''title'', ''T'')] \<and>
   list_all (\<lambda>a. \<not> is_SetItem a) (parse ex_spider ''second'') \<and>
   fst (crawl_document ex_spider ''second'' st_used) =
     Inr (E_HTML (E_HEAD [Element ''meta'' [(''charset'', ''UTF-8'')] []])
            (Element ''body'' [(''f1'', ''seen''), (''f2'', ''seen'')]
               [Element ''p'' [] [Text ''two'']])) \<and>
   head_of (E_HTML (E_HEAD [Element ''meta'' [(''charset'', ''UTF-8'')] []])
            (Element ''body'' [(''f1'', ''seen''), (''f2'', ''seen'')]
               [Element ''p'' [] [Text ''two'']])) =
     E_HEAD [Element ''meta'' [(''charset'', ''UTF-8'')] []] \<and>
   metadata (snd (crawl_document ex_spider ''second'' st_used)) = []"
proof -
  have nw: "\<forall>a \<in> set (parse ex_spider ''second''). \<not> is_SetItem a"
    by (simp add: ex_spider_def)
  obtain st' where run: "crawl_document ex_spider ''second'' st_used =
      (Inr (E_HTML (E_HEAD [Element ''meta'' [(''charset'', ''UTF-8'')] []])
            (Element ''body'' [(''f1'', ''seen''), (''f2'', ''seen'')]
               [Element ''p'' [] [Text ''two'']])), st')"
    using ex_second_document [of st_used] by (cases "crawl_document ex_spider ''second'' st_used") simp
  from crawl_metadata_isolation [of ex_lib ex_spider "''second''" NoFile st_used] nw run
  have "head_of (E_HTML (E_HEAD [Element ''meta'' [(''charset'', ''UTF-8'')] []])
            (Element ''body'' [(''f1'', ''seen''), (''f2'', ''seen'')]
               [Element ''p'' [] [Text ''two'']])) =
          E_HEAD [Element ''meta'' [(''charset'', ''UTF-8'')] []] \<and>
        metadata st' = []"
    by blast
  with run nw st_used_metadata show ?thesis
    by (simp add: list_all_iff)
qed

subsection \<open>At most one title\<close>

lemma dict_setitem_keys:
  "map fst (dict_setitem d k v) =
     (if k \<in> set (map fst d) then map fst d else map fst d @ [k])"
  by (induction d) (force split: if_splits)+

lemma dict_setitem_distinct:
  "distinct (map fst d) \<Longrightarrow> distinct (map fst (dict_setitem d k v))"
  by (simp add: dict_setitem_keys)

lemma written_distinct:
  "distinct (map fst d) \<Longrightarrow> distinct (map fst (written acts d))"
proof (induction acts arbitrary: d)
  case Nil
  then show ?case by simp
next
  case (Cons a acts)
  then show ?case by (cases a) (simp_all add: dict_setitem_distinct)
qed

lemma title_elements_of_items:
  "metadata_items d = Inr els \<Longrightarrow>
   length (filter (\<lambda>n. tag_of n = ''title'') els) =
   length (filter (\<lambda>p. fst p = ''title'') d)"
proof (induction d arbitrary: els)
  case Nil
  then show ?case by simp
next
  case (Cons p d)
  obtain k v where p: "p = (k, v)" by (cases p)
  from Cons.prems obtain el rest where
    el: "(if k = ''title'' then E_TITLE v else E_META [(''name'', k), (''content'', v)]) = Inr el"
    and rest: "metadata_items d = Inr rest" and els: "els = el # rest"
    by (auto simp: p split: sum.splits)
  from el have "tag_of el = ''title'' \<longleftrightarrow> k = ''title''"
    by (auto simp: E_TITLE_def E_META_def split: if_splits)
  with Cons.IH [OF rest] show ?case by (simp add: els p)
qed

lemma distinct_key_once:
  "distinct (map fst d) \<Longrightarrow> length (filter (\<lambda>p. fst p = k) d) \<le> 1"
proof (induction d)
  case Nil
  show ?case by simp
next
  case (Cons p d)
  show ?case
  proof (cases "fst p = k")
    case True
    with Cons.prems have "k \<notin> set (map fst d)" by simp
    then have "\<forall>q \<in> set d. fst q \<noteq> k" by force
    then have "filter (\<lambda>q. fst q = k) d = []" by (simp add: filter_empty_conv)
    with True show ?thesis by simp
  next
    case False
    with Cons show ?thesis by simp
  qed
qed

text \<open>
  Claim C10. The metadata dict has each key once, whatever \<^verbatim>\<open>parse\<close> writes and however
  often it writes the same key; so the head of the document a crawl assembles has at most
  one title element.
\<close>

theorem crawl_head_one_title:
  assumes "crawl_document sp url st = (Inr doc, st')"
  shows "distinct (map fst (metadata st')) \<and>
         length (filter (\<lambda>n. tag_of n = ''title'') (children_of (head_of doc))) \<le> 1"
proof -
  let ?d = "written (parse sp url) []"
  from crawl_document_Inr [OF assms] obtain els where
    items: "metadata_items ?d = Inr els"
    and doc: "head_of doc = E_HEAD (Element ''meta'' [(''charset'', ''UTF-8'')] [] # els)"
    and st': "metadata st' = ?d"
    by (auto simp: E_HTML_def)
  have d: "distinct (map fst ?d)" by (rule written_distinct) simp
  have "length (filter (\<lambda>n. tag_of n = ''title'') (children_of (head_of doc))) =
        length (filter (\<lambda>p. fst p = ''title'') ?d)"
    by (simp add: doc E_HEAD_def title_elements_of_items [OF items])
  with distinct_key_once [OF d, of "''title''"] d st' show ?thesis by simp
qed

theorem crawl_head_one_title_witness:
  "crawl_document ex_spider_retitled ''u'' st0 =
     (Inr (E_HTML (E_HEAD [Element ''meta'' [(''charset'', ''UTF-8'')] [],
                           Element ''title'' [] [Text ''Final''],
                           Element ''meta'' [(''name'', ''author''), (''content'', ''A'')] []])
                  (Element ''body'' [] [])),
      \<lparr>metadata = [(''title'', ''Final''), (''author'', ''A'')],
       trace = [Log INFO ''beginning parse...'', Parsed (SetItem ''title'' ''Draft''),
                Parsed (SetItem ''author'' ''A''), Parsed (SetItem ''title'' ''Final''),
                Log INFO ''applying filters...'']\<rparr>) \<and>
   length (filter (\<lambda>n. tag_of n = ''title'')
     (children_of (head_of (E_HTML (E_HEAD [Element ''meta'' [(''charset'', ''UTF-8'')] [],
                           Element ''title'' [] [Text ''Final''],
                           Element ''meta'' [(''name'', ''author''), (''content'', ''A'')] []])
                  (Element ''body'' [] []))))) \<le> 1"
proof -
  have run: "crawl_document ex_spider_retitled ''u'' st0 =
     (Inr (E_HTML (E_HEAD [Element ''meta'' [(''charset'', ''UTF-8'')] [],
                           Element ''title'' [] [Text ''Final''],
                           Element ''meta'' [(''name'', ''author''), (''content'', ''A'')] []])
                  (Element ''body'' [] [])),
      \<lparr>metadata = [(''title'', ''Final''), (''author'', ''A'')],
       trace = [Log INFO ''beginning parse...'', Parsed (SetItem ''title'' ''Draft''),
                Parsed (SetItem ''author'' ''A''), Parsed (SetItem ''title'' ''Final''),
                Log INFO ''applying filters...'']\<rparr>)"
    by (simp add: crawl_document_def ex_spider_retitled_def st0_def Let_def info_def emit_def
        generate_meadata_elements_eq E_BODY_def E_META_def E_TITLE_def xml_compatible_def
        xml_char_def)
  from crawl_head_one_title [OF run] run show ?thesis by simp
qed

subsection \<open>The order of the steps\<close>

lemma filter_events_no_parse: "list_all (\<lambda>e. \<not> is_Parsed e) (filter_events fs body)"
  by (induction fs arbitrary: body) (auto split: sum.splits)

lemma calls_of_filter_events_hd:
  "fs \<noteq> [] \<Longrightarrow> filter_loop fs body = Inr b \<Longrightarrow>
   filter_name (hd fs) = Inr (fst (hd (calls_of (filter_events fs body)))) \<and>
   snd (hd (calls_of (filter_events fs body))) = body"
  by (cases fs) (auto split: sum.splits)

text \<open>
  Claim C7. In a crawl that assembles its document, the events since its start are: the
  log record that parsing begins, then every step of the \<^verbatim>\<open>parse\<close> generator to its
  end, then the log record that the filters are applied, then the rest. The rest holds no
  step of \<^verbatim>\<open>parse\<close> and holds every filter call of the crawl, and the first filter is
  passed the body made of all that was yielded. The head is built from the dict that all
  the writes of \<^verbatim>\<open>parse\<close> have left.
\<close>

theorem crawl_parse_before_filters:
  assumes "crawl_document sp url st = (Inr doc, st')"
  shows "\<exists>evs body0 els.
     trace st' = trace st @ Log INFO ''beginning parse...'' # map Parsed (parse sp url) @
                 Log INFO ''applying filters...'' # evs \<and>
     list_all (\<lambda>e. \<not> is_Parsed e) evs \<and>
     calls_of (trace st') = calls_of (trace st) @ calls_of evs \<and>
     E_BODY (yielded (parse sp url)) = Inr body0 \<and>
     (filters sp \<noteq> [] \<longrightarrow>
        filter_name (hd (filters sp)) = Inr (fst (hd (calls_of evs))) \<and>
        snd (hd (calls_of evs)) = body0) \<and>
     metadata st' = written (parse sp url) [] \<and>
     metadata_items (written (parse sp url) []) = Inr els \<and>
     head_of doc = E_HEAD (Element ''meta'' [(''charset'', ''UTF-8'')] [] # els)"
proof -
  from crawl_document_Inr [OF assms] obtain body0 body els where
    b0: "E_BODY (yielded (parse sp url)) = Inr body0"
    and loop: "filter_loop (filters sp) body0 = Inr body"
    and items: "metadata_items (written (parse sp url) []) = Inr els"
    and doc: "doc = E_HTML (E_HEAD (Element ''meta'' [(''charset'', ''UTF-8'')] [] # els)) body"
    and st': "st' = \<lparr>metadata = written (parse sp url) [],
                   trace = trace st @ Log INFO ''beginning parse...'' #
                     map Parsed (parse sp url) @
                     Log INFO ''applying filters...'' # filter_events (filters sp) body0\<rparr>"
    by blast
  let ?evs = "filter_events (filters sp) body0"
  have tr: "trace st' = trace st @ Log INFO ''beginning parse...'' # map Parsed (parse sp url) @
                 Log INFO ''applying filters...'' # ?evs"
    and md: "metadata st' = written (parse sp url) []"
    by (simp_all add: st')
  have hd: "head_of doc = E_HEAD (Element ''meta'' [(''charset'', ''UTF-8'')] [] # els)"
    by (simp add: doc E_HTML_def)
  have calls: "calls_of (trace st') = calls_of (trace st) @ calls_of ?evs"
    by (simp add: tr calls_of_append calls_of_Parsed)
  have first: "filters sp \<noteq> [] \<longrightarrow>
        filter_name (hd (filters sp)) = Inr (fst (hd (calls_of ?evs))) \<and>
        snd (hd (calls_of ?evs)) = body0"
    using calls_of_filter_events_hd [OF _ loop] by blast
  from tr md hd calls first b0 items filter_events_no_parse [of "filters sp" body0]
  show ?thesis by blast
qed

text \<open>
  Claim C3. In a crawl that assembles its document (so no filter raises), the filter
  calls of the crawl are as many as the configured filters; call \<open>i\<close> is of filter
  \<open>i\<close> of the list, and the body passed to it is the body made of what was yielded as
  changed by the filters before it, in list order; the body of the document is that body as
  changed by all of them.
\<close>

theorem crawl_filters_once_in_order:
  assumes "crawl_document sp url st = (Inr doc, st')"
  shows "\<exists>calls body0.
     E_BODY (yielded (parse sp url)) = Inr body0 \<and>
     calls_of (trace st') = calls_of (trace st) @ calls \<and>
     length calls = length (filters sp) \<and>
     (\<forall>i < length (filters sp). \<exists>bi.
        chain (take i (filters sp)) body0 = Inr bi \<and>
        filter_name (filters sp ! i) = Inr (fst (calls ! i)) \<and>
        snd (calls ! i) = bi) \<and>
     chain (filters sp) body0 = Inr (body_of doc)"
proof -
  from crawl_document_Inr [OF assms] obtain body0 body els where
    b0: "E_BODY (yielded (parse sp url)) = Inr body0"
    and loop: "filter_loop (filters sp) body0 = Inr body"
    and doc: "doc = E_HTML (E_HEAD (Element ''meta'' [(''charset'', ''UTF-8'')] [] # els)) body"
    and st': "st' = \<lparr>metadata = written (parse sp url) [],
                   trace = trace st @ Log INFO ''beginning parse...'' #
                     map Parsed (parse sp url) @
                     Log INFO ''applying filters...'' # filter_events (filters sp) body0\<rparr>"
    by blast
  let ?evs = "filter_events (filters sp) body0"
  have calls: "calls_of (trace st') = calls_of (trace st) @ calls_of ?evs"
    by (simp add: st' calls_of_append calls_of_Parsed)
  have ch: "chain (filters sp) body0 = Inr (body_of doc)"
    using filter_loop_Inr [OF loop] by (simp add: doc E_HTML_def)
  from b0 calls ch calls_of_filter_events [OF loop] show ?thesis by blast
qed

theorem crawl_parse_before_filters_witness:
  "crawl_document ex_spider ''first'' st0 = (Inr ex_first_document, ex_first_state) \<and>
   (\<exists>evs.
      trace ex_first_state =
        Log INFO ''beginning parse...'' #
        [Parsed (SetItem ''author'' ''A''),
         Parsed (Yield (Node (Element ''p'' [] [Text ''one'']))),
         Parsed (SetItem ''title'' ''T'')] @
        Log INFO ''applying filters...'' # evs \<and>
      list_all (\<lambda>e. \<not> is_Parsed e) evs \<and>
      hd (calls_of evs) = (''filters.f1'', Element ''body'' [] [Element ''p'' [] [Text ''one'']])) \<and>
   head_of ex_first_document =
     E_HEAD [Element ''meta'' [(''charset'', ''UTF-8'')] [],
             Element ''meta'' [(''name'', ''author''), (''content'', ''A'')] [],
             Element ''title'' [] [Text ''T'']]"
proof -
  from crawl_parse_before_filters [OF ex_first_run]
  obtain evs body0 where
    tr: "trace ex_first_state = trace st0 @ Log INFO ''beginning parse...'' #
       map Parsed (parse ex_spider ''first'') @ Log INFO ''applying filters...'' # evs"
    and np: "list_all (\<lambda>e. \<not> is_Parsed e) evs"
    and b0: "E_BODY (yielded (parse ex_spider ''first'')) = Inr body0"
    and first: "filters ex_spider \<noteq> [] \<longrightarrow>
       filter_name (hd (filters ex_spider)) = Inr (fst (hd (calls_of evs))) \<and>
       snd (hd (calls_of evs)) = body0"
    by blast
  from b0 have body0: "body0 = Element ''body'' [] [Element ''p'' [] [Text ''one'']]"
    by (simp add: ex_spider_def E_BODY_def)
  from first have "''filters.f1'' = fst (hd (calls_of evs))" "snd (hd (calls_of evs)) = body0"
    by (simp_all add: ex_spider_def ex_mark_def filter_name_def)
  with body0 have hd: "hd (calls_of evs) =
      (''filters.f1'', Element ''body'' [] [Element ''p'' [] [Text ''one'']])"
    by (cases "hd (calls_of evs)") simp
  from tr have tr': "trace ex_first_state =
        Log INFO ''beginning parse...'' #
        [Parsed (SetItem ''author'' ''A''),
         Parsed (Yield (Node (Element ''p'' [] [Text ''one'']))),
         Parsed (SetItem ''title'' ''T'')] @
        Log INFO ''applying filters...'' # evs"
    by (simp add: ex_spider_def st0_def)
  have "head_of ex_first_document =
     E_HEAD [Element ''meta'' [(''charset'', ''UTF-8'')] [],
             Element ''meta'' [(''name'', ''author''), (''content'', ''A'')] [],
             Element ''title'' [] [Text ''T'']]"
    by (simp add: ex_first_document_def E_HTML_def)
  with ex_first_run tr' np hd show ?thesis by blast
qed

theorem crawl_filters_once_in_order_witness:
  "crawl_document ex_spider ''first'' st0 = (Inr ex_first_document, ex_first_state) \<and>
   calls_of (trace ex_first_state) =
     [(''filters.f1'', Element ''body'' [] [Element ''p'' [] [Text ''one'']]),
      (''filters.f2'', Element ''body'' [(''f1'', ''seen'')] [Element ''p'' [] [Text ''one'']])] \<and>
   length (calls_of (trace ex_first_state)) = length (filters ex_spider) \<and>
   chain (filters ex_spider) (Element ''body'' [] [Element ''p'' [] [Text ''one'']]) =
     Inr (Element ''body'' [(''f1'', ''seen''), (''f2'', ''seen'')]
            [Element ''p'' [] [Text ''one'']])"
proof -
  from crawl_filters_once_in_order [OF ex_first_run]
  obtain calls body0 where
    b0: "E_BODY (yielded (parse ex_spider ''first'')) = Inr body0"
    and c: "calls_of (trace ex_first_state) = calls_of (trace st0) @ calls"
    and len: "length calls = length (filters ex_spider)"
    and ch: "chain (filters ex_spider) body0 = Inr (body_of ex_first_document)"
    by blast
  from b0 have body0: "body0 = Element ''body'' [] [Element ''p'' [] [Text ''one'']]"
    by (simp add: ex_spider_def E_BODY_def)
  from c len have "length (calls_of (trace ex_first_state)) = length (filters ex_spider)"
    by (simp add: st0_def)
  moreover from ch body0
  have "chain (filters ex_spider) (Element ''body'' [] [Element ''p'' [] [Text ''one'']]) =
     Inr (Element ''body'' [(''f1'', ''seen''), (''f2'', ''seen'')]
            [Element ''p'' [] [Text ''one'']])"
    by (simp add: ex_first_document_def E_HTML_def)
  moreover have "calls_of (trace ex_first_state) =
     [(''filters.f1'', Element ''body'' [] [Element ''p'' [] [Text ''one'']]),
      (''filters.f2'', Element ''body'' [(''f1'', ''seen'')] [Element ''p'' [] [Text ''one'']])]"
    by (simp add: ex_first_state_def)
  ultimately show ?thesis using ex_first_run by blast
qed

subsection \<open>A filter that raises\<close>

lemma calls_names:
  "filter_loop fs body = Inr b \<Longrightarrow>
   map (\<lambda>c. Inr (fst c)) (calls_of (filter_events fs body)) = map filter_name fs"
  by (induction fs arbitrary: body) (auto split: sum.splits)

lemma filter_events_quiet:
  "list_all (\<lambda>e. \<not> is_Wrote e \<and> e \<noteq> Log INFO ''writing document...'' \<and>
      e \<noteq> Log INFO ''tostring on document...'') (filter_events fs body)"
  by (induction fs arbitrary: body) (auto split: sum.splits)

lemma crawl_filter_raise:
  assumes nr: "\<forall>a \<in> set (parse sp url). \<not> is_Raise a"
    and body: "E_BODY (yielded (parse sp url)) = Inr body0"
    and fs: "filters sp = fs1 @ f # fs2"
    and named: "list_all named fs1"
    and name: "filter_name f = Inr name"
    and ok: "chain fs1 body0 = Inr b"
    and bad: "run f b = Inl e"
  shows "crawl lib sp url out st =
     (Inl e, \<lparr>metadata = written (parse sp url) [],
        trace = trace st @ Log INFO ''beginning parse...'' # map Parsed (parse sp url) @
          Log INFO ''applying filters...'' # filter_events fs1 body0 @
          [Log DEBUG (''running filter '' @ name), Call name b]\<rparr>)"
proof -
  have loop1: "filter_loop fs1 body0 = Inr b"
    using filter_loop_named [OF named] ok by simp
  show ?thesis
    by (simp add: crawl_def crawl_document_eq [OF nr] body fs filter_loop_append
        filter_events_append loop1 name bad)
qed

text \<open>
  Claim C4. When \<^verbatim>\<open>parse\<close> completes and the body is made, the filters up to \<open>f\<close> in
  the list have names that \<^verbatim>\<open>_filter_name\<close> can work out, those before \<open>f\<close> succeed and
  \<open>f\<close> raises \<open>e\<close>, then \<^verbatim>\<open>crawl\<close> raises \<open>e\<close> to its caller and returns nothing.
  The filter calls of the crawl are those of the filters up to \<open>f\<close>, no
  event of it is a write to the output file or a log record of the serialising step, and
  the whole outcome is that of a spider whose list ends at \<open>f\<close>, with any serialising
  library and any output file: nothing after \<open>f\<close> runs.
\<close>

theorem crawl_filter_error_aborts:
  assumes nr: "\<forall>a \<in> set (parse sp url). \<not> is_Raise a"
    and body: "E_BODY (yielded (parse sp url)) = Inr body0"
    and fs: "filters sp = fs1 @ f # fs2"
    and named: "list_all named (fs1 @ [f])"
    and ok: "chain fs1 body0 = Inr b"
    and bad: "run f b = Inl e"
  shows "fst (crawl lib sp url out st) = Inl e \<and>
     crawl lib sp url out st = crawl lib' (sp\<lparr>filters := fs1 @ [f]\<rparr>) url out' st \<and>
     (\<exists>evs. trace (snd (crawl lib sp url out st)) = trace st @ evs \<and>
        map (\<lambda>c. Inr (fst c)) (calls_of evs) = map filter_name (fs1 @ [f]) \<and>
        list_all (\<lambda>e. \<not> is_Wrote e \<and> e \<noteq> Log INFO ''writing document...'' \<and>
           e \<noteq> Log INFO ''tostring on document...'') evs)"
proof -
  from named have named1: "list_all named fs1" and "named f" by simp_all
  then obtain name where name: "filter_name f = Inr name"
    by (auto simp: named_def split: sum.splits)
  have loop1: "filter_loop fs1 body0 = Inr b"
    using filter_loop_named [OF named1] ok by simp
  let ?evs = "Log INFO ''beginning parse...'' # map Parsed (parse sp url) @
          Log INFO ''applying filters...'' # filter_events fs1 body0 @
          [Log DEBUG (''running filter '' @ name), Call name b]"
  note run = crawl_filter_raise [OF nr body fs named1 name ok bad]
  have short: "crawl lib' (sp\<lparr>filters := fs1 @ [f]\<rparr>) url out' st =
     (Inl e, \<lparr>metadata = written (parse sp url) [], trace = trace st @ ?evs\<rparr>)"
    using crawl_filter_raise [of "sp\<lparr>filters := fs1 @ [f]\<rparr>" url body0 fs1 f "[]" name b e
        lib' out' st] nr body named1 name ok bad by simp
  have names: "map (\<lambda>c. Inr (fst c)) (calls_of ?evs) = map filter_name (fs1 @ [f])"
    by (simp add: calls_of_append calls_of_Parsed calls_names [OF loop1] name)
  have quiet: "list_all (\<lambda>e. \<not> is_Wrote e \<and> e \<noteq> Log INFO ''writing document...'' \<and>
           e \<noteq> Log INFO ''tostring on document...'') ?evs"
    using filter_events_quiet [of fs1 body0] by (auto simp: list_all_iff)
  have "trace (snd (crawl lib sp url out st)) = trace st @ ?evs"
    by (simp add: run)
  with names quiet have "\<exists>evs. trace (snd (crawl lib sp url out st)) = trace st @ evs \<and>
        map (\<lambda>c. Inr (fst c)) (calls_of evs) = map filter_name (fs1 @ [f]) \<and>
        list_all (\<lambda>e. \<not> is_Wrote e \<and> e \<noteq> Log INFO ''writing document...'' \<and>
           e \<noteq> Log INFO ''tostring on document...'') evs"
    by blast
  moreover have "fst (crawl lib sp url out st) = Inl e" by (simp add: run)
  moreover have "crawl lib sp url out st = crawl lib' (sp\<lparr>filters := fs1 @ [f]\<rparr>) url out' st"
    by (simp only: run short)
  ultimately show ?thesis by blast
qed

theorem crawl_filter_error_aborts_witness:
  "crawl ex_lib ex_spider_filter_raises ''u'' (FileObject 1 True) st0 =
     (Inl (Exn ''boom''),
      \<lparr>metadata = [],
       trace = [Log INFO ''beginning parse...'', Log INFO ''applying filters...'',
                Log DEBUG ''running filter filters.f1'', Call ''filters.f1'' (Element ''body'' [] []),
                Log DEBUG ''running filter filters.Broken'',
                Call ''filters.Broken'' (Element ''body'' [(''f1'', ''seen'')] [])]\<rparr>) \<and>
   crawl ex_lib ex_spider_filter_raises ''u'' (FileObject 1 True) st0 =
     crawl ex_lib_raises (ex_spider_filter_raises\<lparr>filters := [ex_mark ''f1'', ex_broken]\<rparr>)
       ''u'' NoFile st0"
proof -
  have nr: "\<forall>a \<in> set (parse ex_spider_filter_raises ''u''). \<not> is_Raise a"
    by (simp add: ex_spider_filter_raises_def)
  have body: "E_BODY (yielded (parse ex_spider_filter_raises ''u'')) = Inr (Element ''body'' [] [])"
    by (simp add: ex_spider_filter_raises_def E_BODY_def)
  have fs: "filters ex_spider_filter_raises = [ex_mark ''f1''] @ ex_broken # [ex_mark ''f3'']"
    by (simp add: ex_spider_filter_raises_def)
  have named: "list_all named ([ex_mark ''f1''] @ [ex_broken])"
    by (simp add: named_def filter_name_def ex_mark_def ex_broken_def)
  have ok: "chain [ex_mark ''f1''] (Element ''body'' [] []) =
      Inr (Element ''body'' [(''f1'', ''seen'')] [])"
    by (simp add: ex_mark_def)
  have bad: "run ex_broken (Element ''body'' [(''f1'', ''seen'')] []) = Inl (Exn ''boom'')"
    by (simp add: ex_broken_def)
  from crawl_filter_error_aborts [OF nr body fs named ok bad,
      of ex_lib "FileObject 1 True" st0 ex_lib_raises NoFile]
  have same: "crawl ex_lib ex_spider_filter_raises ''u'' (FileObject 1 True) st0 =
     crawl ex_lib_raises (ex_spider_filter_raises\<lparr>filters := [ex_mark ''f1'', ex_broken]\<rparr>)
       ''u'' NoFile st0"
    by simp
  have "crawl ex_lib ex_spider_filter_raises ''u'' (FileObject 1 True) st0 =
     (Inl (Exn ''boom''),
      \<lparr>metadata = [],
       trace = [Log INFO ''beginning parse...'', Log INFO ''applying filters...'',
                Log DEBUG ''running filter filters.f1'', Call ''filters.f1'' (Element ''body'' [] []),
                Log DEBUG ''running filter filters.Broken'',
                Call ''filters.Broken'' (Element ''body'' [(''f1'', ''seen'')] [])]\<rparr>)"
    by (simp add: crawl_def crawl_document_def ex_spider_filter_raises_def ex_mark_def
        ex_broken_def st0_def Let_def info_def debug_def emit_def E_BODY_def filter_name_def)
  with same show ?thesis by blast
qed

subsection \<open>Exceptions reach the caller as they were raised\<close>

text \<open>
  Claim C8, as stated, fails: the exception that reaches the caller of \<^verbatim>\<open>crawl\<close> is the
  one the collaborator raised and says nothing about the stage. Below, one crawl fails in
  \<^verbatim>\<open>parse\<close> and another in a filter, and the caller gets the same exception from both.
\<close>

theorem crawl_error_names_stage_counterexample:
  "fst (run_parse (parse ex_spider_parse_raises ''u'')
          (info ''beginning parse...'' (st0\<lparr>metadata := []\<rparr>))) = Inl (Exn ''boom'') \<and>
   fst (crawl ex_lib ex_spider_parse_raises ''u'' NoFile st0) = Inl (Exn ''boom'') \<and>
   fst (run_parse (parse ex_spider_filter_raises ''u'')
          (info ''beginning parse...'' (st0\<lparr>metadata := []\<rparr>))) = Inr [] \<and>
   E_BODY [] = Inr (Element ''body'' [] []) \<and>
   chain (filters ex_spider_filter_raises) (Element ''body'' [] []) = Inl (Exn ''boom'') \<and>
   fst (crawl ex_lib ex_spider_filter_raises ''u'' NoFile st0) = Inl (Exn ''boom'')"
  by (simp add: crawl_def crawl_document_def ex_spider_parse_raises_def
      ex_spider_filter_raises_def ex_mark_def ex_broken_def st0_def Let_def info_def debug_def
      emit_def E_BODY_def filter_name_def)

lemma serialize_document_fst:
  "fst (serialize_document lib doc out st) =
     (if truthy out
      then (case tree_write lib doc out ''UTF-8'' ''html'' True ''<!doctype html>'' of
              Inl e \<Rightarrow> Inl e | Inr (bytes, r) \<Rightarrow> Inr (WriteResult r))
      else (case tostring lib doc ''unicode'' True ''<!doctype html>'' of
              Inl e \<Rightarrow> Inl e | Inr s \<Rightarrow> Inr (Str s)))"
  by (simp add: serialize_document_def Let_def split: sum.splits prod.splits)

lemma crawl_fst_cases:
  "fst (crawl lib sp url out st) =
     (case crawl_document sp url st of
        (Inl e, st1) \<Rightarrow> Inl e
      | (Inr doc, st1) \<Rightarrow> fst (serialize_document lib doc out st1))"
  by (simp add: crawl_def split: prod.splits sum.splits)

lemma filter_loop_raise:
  assumes "list_all named fs1" "chain fs1 body0 = Inr b"
    and "filter_name f = Inl e \<or> named f \<and> run f b = Inl e"
  shows "filter_loop (fs1 @ f # fs2) body0 = Inl e"
  using assms filter_loop_named [OF assms(1), of body0]
  by (auto simp: filter_loop_append named_def split: sum.splits)

text \<open>
  Claim C8, amended. An exception raised by a stage of a crawl reaches the caller of
  \<^verbatim>\<open>crawl\<close> as it was raised, with no name of the stage, and is never swallowed: when
  \<^verbatim>\<open>parse\<close> raises \<open>e\<close>; when \<^verbatim>\<open>parse\<close> completes and making the body raises \<open>e\<close>; when
  the body is made, the filters before \<open>f\<close> succeed, and naming \<open>f\<close> or calling it raises
  \<open>e\<close>; when all filters succeed and the metadata projection raises \<open>e\<close>; when the
  document is assembled and the write to the output file raises \<open>e\<close>, or \<^verbatim>\<open>tostring\<close>
  does; then \<^verbatim>\<open>crawl\<close> raises \<open>e\<close>.
\<close>

theorem crawl_error_unchanged:
  "(parse sp url = pre @ Raise e # post \<and> (\<forall>a \<in> set pre. \<not> is_Raise a) \<longrightarrow>
      fst (crawl lib sp url out st) = Inl e) \<and>
   ((\<forall>a \<in> set (parse sp url). \<not> is_Raise a) \<and>
      E_BODY (yielded (parse sp url)) = Inl e \<longrightarrow>
      fst (crawl lib sp url out st) = Inl e) \<and>
   ((\<forall>a \<in> set (parse sp url). \<not> is_Raise a) \<and>
      E_BODY (yielded (parse sp url)) = Inr body0 \<and>
      filters sp = fs1 @ f # fs2 \<and> list_all named fs1 \<and> chain fs1 body0 = Inr b \<and>
      (filter_name f = Inl e \<or> named f \<and> run f b = Inl e) \<longrightarrow>
      fst (crawl lib sp url out st) = Inl e) \<and>
   ((\<forall>a \<in> set (parse sp url). \<not> is_Raise a) \<and>
      E_BODY (yielded (parse sp url)) = Inr body0 \<and>
      list_all named (filters sp) \<and> chain (filters sp) body0 = Inr body \<and>
      metadata_items (written (parse sp url) []) = Inl e \<longrightarrow>
      fst (crawl lib sp url out st) = Inl e) \<and>
   (crawl_document sp url st = (Inr doc, st1) \<and> truthy out \<and>
      tree_write lib doc out ''UTF-8'' ''html'' True ''<!doctype html>'' = Inl e \<longrightarrow>
      fst (crawl lib sp url out st) = Inl e) \<and>
   (crawl_document sp url st = (Inr doc, st1) \<and> \<not> truthy out \<and>
      tostring lib doc ''unicode'' True ''<!doctype html>'' = Inl e \<longrightarrow>
      fst (crawl lib sp url out st) = Inl e)"
proof -
  have parse_raises: "fst (crawl lib sp url out st) = Inl e"
    if "parse sp url = pre @ Raise e # post" "\<forall>a \<in> set pre. \<not> is_Raise a"
    using crawl_document_raise [OF that, of st] by (simp add: crawl_fst_cases)
  have body_raises: "fst (crawl lib sp url out st) = Inl e"
    if "\<forall>a \<in> set (parse sp url). \<not> is_Raise a" "E_BODY (yielded (parse sp url)) = Inl e"
    using that by (simp add: crawl_fst_cases crawl_document_eq)
  have filter_raises: "fst (crawl lib sp url out st) = Inl e"
    if nr: "\<forall>a \<in> set (parse sp url). \<not> is_Raise a"
      and b0: "E_BODY (yielded (parse sp url)) = Inr body0"
      and fs: "filters sp = fs1 @ f # fs2"
      and rest: "list_all named fs1" "chain fs1 body0 = Inr b"
        "filter_name f = Inl e \<or> named f \<and> run f b = Inl e"
    using filter_loop_raise [OF rest, of fs2]
    by (simp add: crawl_fst_cases crawl_document_eq [OF nr] b0 fs)
  have metadata_raises: "fst (crawl lib sp url out st) = Inl e"
    if nr: "\<forall>a \<in> set (parse sp url). \<not> is_Raise a"
      and b0: "E_BODY (yielded (parse sp url)) = Inr body0"
      and named: "list_all named (filters sp)"
      and ch: "chain (filters sp) body0 = Inr body"
      and items: "metadata_items (written (parse sp url) []) = Inl e"
    using filter_loop_named [OF named, of body0] ch
    by (simp add: crawl_fst_cases crawl_document_eq [OF nr] b0 items)
  have write_raises: "fst (crawl lib sp url out st) = Inl e"
    if "crawl_document sp url st = (Inr doc, st1)" "truthy out"
      "tree_write lib doc out ''UTF-8'' ''html'' True ''<!doctype html>'' = Inl e"
    using that by (simp add: crawl_fst_cases serialize_document_fst)
  have tostring_raises: "fst (crawl lib sp url out st) = Inl e"
    if "crawl_document sp url st = (Inr doc, st1)" "\<not> truthy out"
      "tostring lib doc ''unicode'' True ''<!doctype html>'' = Inl e"
    using that by (simp add: crawl_fst_cases serialize_document_fst)
  from parse_raises body_raises filter_raises metadata_raises write_raises tostring_raises
  show ?thesis by blast
qed

theorem crawl_error_unchanged_witness:
  "list_all (\<lambda>a. \<not> is_Raise a) (parse ex_spider_control_char ''u'') \<and>
   E_BODY (yielded (parse ex_spider_control_char ''u'')) = Inr (Element ''body'' [] []) \<and>
   chain (filters ex_spider_control_char) (Element ''body'' [] []) = Inr (Element ''body'' [] []) \<and>
   metadata_items (written (parse ex_spider_control_char ''u'') []) = Inl ValueError \<and>
   fst (crawl ex_lib ex_spider_control_char ''u'' (FileObject 1 True) st0) = Inl ValueError"
proof -
  have nr: "\<forall>a \<in> set (parse ex_spider_control_char ''u''). \<not> is_Raise a"
    by (simp add: ex_spider_control_char_def)
  have b0: "E_BODY (yielded (parse ex_spider_control_char ''u'')) = Inr (Element ''body'' [] [])"
    by (simp add: ex_spider_control_char_def E_BODY_def)
  have named: "list_all named (filters ex_spider_control_char)"
    by (simp add: ex_spider_control_char_def)
  have ch: "chain (filters ex_spider_control_char) (Element ''body'' [] []) =
      Inr (Element ''body'' [] [])"
    by (simp add: ex_spider_control_char_def)
  have items: "metadata_items (written (parse ex_spider_control_char ''u'') []) = Inl ValueError"
    by (simp add: ex_spider_control_char_def E_META_def E_TITLE_def xml_compatible_def
        xml_char_def)
  from crawl_error_unchanged [of ex_spider_control_char "''u''" _ ValueError _ ex_lib
      "FileObject 1 True" st0 "Element ''body'' [] []" _ _ _ _ "Element ''body'' [] []"]
    nr b0 named ch items
  have "fst (crawl ex_lib ex_spider_control_char ''u'' (FileObject 1 True) st0) = Inl ValueError"
    by blast
  with nr b0 ch items show ?thesis by (simp add: list_all_iff)
qed

subsection \<open>Where the serialised document goes\<close>

lemma ex_second_run:
  "crawl_document ex_spider ''second'' st0 =
     (Inr (E_HTML (E_HEAD [Element ''meta'' [(''charset'', ''UTF-8'')] []])
            (Element ''body'' [(''f1'', ''seen''), (''f2'', ''seen'')]
               [Element ''p'' [] [Text ''two'']])),
      \<lparr>metadata = [],
       trace = [Log INFO ''beginning parse...'',
                Parsed (Yield (Node (Element ''p'' [] [Text ''two'']))),
                Log INFO ''applying filters...'',
                Log DEBUG ''running filter filters.f1'',
                Call ''filters.f1'' (Element ''body'' [] [Element ''p'' [] [Text ''two'']]),
                Log DEBUG ''running filter filters.f2'',
                Call ''filters.f2''
                  (Element ''body'' [(''f1'', ''seen'')] [Element ''p'' [] [Text ''two'']])]\<rparr>)"
  by (simp add: crawl_document_def ex_spider_def ex_mark_def st0_def Let_def info_def debug_def
      emit_def E_BODY_def generate_meadata_elements_eq filter_name_def)

text \<open>
  Claim C9 holds of what the docstring of \<^verbatim>\<open>crawl\<close> promises, and the code departs from
  it: \<^verbatim>\<open>if output_file:\<close> asks for the truth value of the argument, not whether one was
  given. Called with a file object that Python takes as false (its \<^verbatim>\<open>__len__\<close> returns
  0), or with the empty string as filename, \<^verbatim>\<open>crawl\<close> takes the branch of the omitted
  file: it logs \<^verbatim>\<open>tostring on document...\<close>, writes nothing, and returns the serialised
  document as a string.
\<close>

theorem crawl_falsy_output_file:
  "crawl ex_lib ex_spider ''second'' (FileObject 1 False) st0 =
     (Inr (Str ''<!doctype html><html><head><meta></meta></head><body><p>two</p></body></html>''),
      \<lparr>metadata = [],
       trace = [Log INFO ''beginning parse...'',
                Parsed (Yield (Node (Element ''p'' [] [Text ''two'']))),
                Log INFO ''applying filters...'',
                Log DEBUG ''running filter filters.f1'',
                Call ''filters.f1'' (Element ''body'' [] [Element ''p'' [] [Text ''two'']]),
                Log DEBUG ''running filter filters.f2'',
                Call ''filters.f2''
                  (Element ''body'' [(''f1'', ''seen'')] [Element ''p'' [] [Text ''two'']]),
                Log INFO ''tostring on document...'']\<rparr>) \<and>
   crawl ex_lib ex_spider ''second'' (Filename []) st0 =
     crawl ex_lib ex_spider ''second'' (FileObject 1 False) st0 \<and>
   crawl ex_lib ex_spider ''second'' NoFile st0 =
     crawl ex_lib ex_spider ''second'' (FileObject 1 False) st0"
  by (simp add: crawl_def ex_second_run serialize_document_def ex_lib_def Let_def info_def
      emit_def E_HTML_def E_HEAD_def)

end
